theory Spec2Isabelle
  imports Complex_Main "HOL-Library.AList"
begin

section \<open>Strings\<close>

text \<open>
  A JavaScript string is modelled as a \<open>string\<close> whose characters are the code points
  U+0000 .. U+00FF. \<open>toLowerCase\<close> folds the upper-case letters of that range
  (A-Z, and the Latin-1 letters U+00C0 .. U+00DE without the multiplication sign).
\<close>

definition lowerChar :: "char \<Rightarrow> char" where
  "lowerChar c =
     (let n = (of_char c :: nat)
      in if (65 \<le> n \<and> n \<le> 90) \<or> (192 \<le> n \<and> n \<le> 222 \<and> n \<noteq> 215)
         then char_of (n + 32) else c)"

definition toLowerCase :: "string \<Rightarrow> string" where
  "toLowerCase s = map lowerChar s"

fun startsWith :: "string \<Rightarrow> string \<Rightarrow> bool" where
  "startsWith s [] = True"
| "startsWith [] (k # ks) = False"
| "startsWith (c # cs) (k # ks) = (c = k \<and> startsWith cs ks)"

text \<open>\<open>includesStr s k\<close> is \<open>s.includes(k)\<close>: \<open>k\<close> occurs in \<open>s\<close> as a contiguous run.\<close>

fun includesStr :: "string \<Rightarrow> string \<Rightarrow> bool" where
  "includesStr [] k = (k = [])"
| "includesStr (c # cs) k = (startsWith (c # cs) k \<or> includesStr cs k)"

section \<open>Regular expressions\<close>

text \<open>
  The fragment of JavaScript regular expressions that the pattern table and the
  resolvers use: literal text, \<open>\d+\<close>, \<open>\s\<close>, sequence, alternation and numbered
  capture groups, always under the \<open>i\<close> flag. Literals are written in lower case, as in
  the source, and an input character matches a literal character when both fold to the
  same character.
\<close>

datatype regex =
    Lit string
  | Digits
  | Whitespace
  | Seq regex regex
  | Alt regex regex
  | Group nat regex

type_synonym captures = "(nat \<times> string) list"

definition isDigit :: "char \<Rightarrow> bool" where
  "isDigit c = (let n = (of_char c :: nat) in 48 \<le> n \<and> n \<le> 57)"

definition isSpace :: "char \<Rightarrow> bool" where
  "isSpace c = (of_char c \<in> {9, 10, 11, 12, 13, 32, 160 :: nat})"

fun startsWith_i :: "string \<Rightarrow> string \<Rightarrow> bool" where
  "startsWith_i s [] = True"
| "startsWith_i [] (k # ks) = False"
| "startsWith_i (c # cs) (k # ks) = (lowerChar c = lowerChar k \<and> startsWith_i cs ks)"

text \<open>
  \<open>matchAt r s caps\<close> lists every way \<open>r\<close> can match a prefix of \<open>s\<close>, in the order in
  which a backtracking matcher tries them (a greedy \<open>\d+\<close> tries the longest run first, an
  alternation its left branch first); each entry is the unread rest of the input with
  the captures made so far.
\<close>

fun digitRuns :: "string \<Rightarrow> nat \<Rightarrow> captures \<Rightarrow> (string \<times> captures) list" where
  "digitRuns s 0 caps = []"
| "digitRuns s (Suc n) caps = (drop (Suc n) s, caps) # digitRuns s n caps"

fun matchAt :: "regex \<Rightarrow> string \<Rightarrow> captures \<Rightarrow> (string \<times> captures) list" where
  "matchAt (Lit l) s caps = (if startsWith_i s l then [(drop (length l) s, caps)] else [])"
| "matchAt Digits s caps = digitRuns s (length (takeWhile isDigit s)) caps"
| "matchAt Whitespace s caps =
     (case s of [] \<Rightarrow> [] | c # cs \<Rightarrow> if isSpace c then [(cs, caps)] else [])"
| "matchAt (Seq a b) s caps =
     concat (map (\<lambda>(rest, caps'). matchAt b rest caps') (matchAt a s caps))"
| "matchAt (Alt a b) s caps = matchAt a s caps @ matchAt b s caps"
| "matchAt (Group n r) s caps =
     map (\<lambda>(rest, caps'). (rest, AList.update n (take (length s - length rest) s) caps'))
       (matchAt r s caps)"

text \<open>\<open>s.match(r)\<close>: the captures of the leftmost match, or \<open>None\<close> for \<open>null\<close>.\<close>

fun match :: "regex \<Rightarrow> string \<Rightarrow> captures option" where
  "match r [] = (case matchAt r [] [] of [] \<Rightarrow> None | (rest, caps) # _ \<Rightarrow> Some caps)"
| "match r (c # cs) =
     (case matchAt r (c # cs) [] of [] \<Rightarrow> match r cs | (rest, caps) # _ \<Rightarrow> Some caps)"

text \<open>\<open>r.test(s)\<close>.\<close>

definition test :: "regex \<Rightarrow> string \<Rightarrow> bool" where
  "test r s = (match r s \<noteq> None)"

text \<open>\<open>m[i]\<close> of a match array; a group that took no part in the match is \<open>undefined\<close>.\<close>

definition capture :: "captures \<Rightarrow> nat \<Rightarrow> string option" where
  "capture caps i = map_of caps i"

text \<open>Truthiness of an optional string: \<open>undefined\<close> and \<open>''\<close> are falsy.\<close>

fun truthy :: "string option \<Rightarrow> bool" where
  "truthy None = False"
| "truthy (Some v) = (v \<noteq> [])"

definition dottedNumber :: regex where
  "dottedNumber = Seq Digits (Seq (Lit ''.'') Digits)"

text \<open>The pattern table built by the constructor (\<open>this.regexPatterns\<close>).\<close>

definition regexPatterns_chrome :: regex where
  "regexPatterns_chrome = Seq (Lit ''chrome/'') (Group 1 dottedNumber)"

definition regexPatterns_firefox :: regex where
  "regexPatterns_firefox = Seq (Lit ''firefox/'') (Group 1 dottedNumber)"

definition regexPatterns_safari :: regex where
  "regexPatterns_safari = Seq (Lit ''version/'') (Group 1 dottedNumber)"

definition regexPatterns_edge :: regex where
  "regexPatterns_edge = Seq (Lit ''edg/'') (Group 1 dottedNumber)"

definition regexPatterns_opera :: regex where
  "regexPatterns_opera =
     Seq (Alt (Lit ''opera'') (Lit ''opr'')) (Seq (Lit ''/'') (Group 1 dottedNumber))"

definition regexPatterns_ie :: regex where
  "regexPatterns_ie =
     Alt (Seq (Lit ''msie'') (Seq Whitespace (Group 1 dottedNumber)))
         (Seq (Lit ''rv:'') (Group 2 dottedNumber))"

definition regexPatterns_android :: regex where
  "regexPatterns_android = Seq (Lit ''android'') (Seq Whitespace (Group 1 dottedNumber))"

definition regexPatterns_ios :: regex where
  "regexPatterns_ios =
     Seq (Lit ''os'') (Seq Whitespace (Group 1 (Seq Digits (Seq (Lit ''_'') Digits))))"

definition regexPatterns_windows :: regex where
  "regexPatterns_windows =
     Seq (Lit ''windows nt '')
       (Group 1 (Alt (Lit ''10.0'') (Alt (Lit ''6.3'') (Alt (Lit ''6.2'') (Lit ''6.1'')))))"

definition regexPatterns_macos :: regex where
  "regexPatterns_macos = Seq (Lit ''mac os x 10_'') (Group 1 Digits)"

section \<open>Host signals\<close>

text \<open>
  Everything the class reads from \<open>window\<close>, \<open>navigator\<close> and \<open>document\<close>, with the
  optional members of the declared interfaces as options. A member that the code only
  tests for presence is a flag.
\<close>

record ChromeRuntime =
  onConnect :: bool

record ChromeAPI =
  runtime :: "ChromeRuntime option"
  webstore :: bool

record SafariAPI =
  pushNotification :: bool

record OperaAPI =
  version :: "string option"

record Brand =
  brand :: string
  brand_version :: string

record UserAgentData =
  brands :: "Brand list option"

text \<open>
  The scratch element of the feature probe. A statement of the probe may raise, and
  \<open>raisesAt\<close> says where the first such statement stands: before the Chrome check
  (creating the element, styling it, appending it to \<open>document.body\<close>, setting or
  reading \<open>webkitTransform\<close>), between the Chrome check and the Safari check
  (setting or reading \<open>webkitAppearance\<close>), between the Safari check and the check
  of the user agent (reading the user agent), or in the clean-up after all checks.
  The two strings are what the style properties read back after the assignment.
\<close>

datatype RaisePoint = BeforeChromeCheck | BeforeSafariCheck | BeforeEdgeCheck | AtCleanup

record StyleProbe =
  raisesAt :: "RaisePoint option"
  webkitTransform :: string
  webkitAppearance :: string

record Host =
  userAgent :: string
  vendor :: string
  maxTouchPoints :: int
  ontouchstart :: bool
  innerWidth :: int
  chrome :: "ChromeAPI option"
  InstallTrigger :: "bool option"
  safari :: "SafariAPI option"
  opera :: "OperaAPI option"
  userAgentData :: "UserAgentData option"
  documentMode :: "int option"
  styleProbe :: StyleProbe
  now :: int

section \<open>Results\<close>

datatype BrowserType = Chrome | Firefox | Safari | Edge | Opera | InternetExplorer | Unknown

datatype DetectionMethod = ApiDetection | VendorDetection | UserAgentDetection | CssDetection

datatype OSType = Windows | macOS | Linux | Android | iOS | UnknownOS

datatype EngineType = Blink | Gecko | WebKit | Trident | UnknownEngine

text \<open>
  \<open>DetectionMethodResult\<close> and \<open>BrowserDetectionResult\<close> share the fields \<open>browser\<close>
  and \<open>confidence\<close>; what \<open>selectBestResult\<close> returns (a partial
  \<open>BrowserDetectionResult\<close>) has these two and \<open>detectionMethods\<close>. A confidence
  is a rational number, and the score of a label, which the source computes as a product
  of doubles, is computed exactly; the statements about scores below are made for the
  candidate lists that the four extractors produce.
\<close>

record Candidate =
  browser :: BrowserType
  confidence :: rat

record DetectionMethodResult = Candidate +
  "method" :: DetectionMethod

record PartialResult = Candidate +
  detectionMethods :: "DetectionMethod list"

record BrowserDetectionResult = PartialResult +
  browserVersion :: string
  engine :: EngineType
  engineVersion :: string
  platform :: string
  os :: OSType
  osVersion :: string
  isMobile :: bool
  isTablet :: bool
  isDesktop :: bool
  userAgent_echo :: string
  vendor_echo :: string
  timestamp :: int

type_synonym EngineInfo = "EngineType \<times> string"

type_synonym OSInfo = "OSType \<times> string"


section \<open>Device class\<close>

definition mobileKeywords :: "string list" where
  "mobileKeywords =
     [''mobile'', ''android'', ''iphone'', ''ipod'', ''blackberry'',
      ''windows phone'', ''opera mini'', ''iemobile'']"

definition tabletKeywords :: "string list" where
  "tabletKeywords = [''ipad'', ''tablet'', ''playbook'', ''silk'']"

definition hasTouch :: "Host \<Rightarrow> bool" where
  "hasTouch h = (ontouchstart h \<or> maxTouchPoints h > 0)"

definition detectMobile :: "Host \<Rightarrow> bool" where
  "detectMobile h =
     (let ua = toLowerCase (userAgent h);
          hasMobileKeyword = list_ex (includesStr ua) mobileKeywords;
          isSmallScreen = (innerWidth h \<le> 768)
      in hasMobileKeyword \<or> (hasTouch h \<and> isSmallScreen))"

definition detectTablet :: "Host \<Rightarrow> bool" where
  "detectTablet h =
     (let ua = toLowerCase (userAgent h);
          hasTabletKeyword = list_ex (includesStr ua) tabletKeywords;
          isTabletSize = (innerWidth h > 768 \<and> innerWidth h \<le> 1024)
      in hasTabletKeyword \<or> (hasTouch h \<and> isTabletSize))"

section \<open>Signal extractors\<close>

definition unknownResult :: "DetectionMethod \<Rightarrow> DetectionMethodResult" where
  "unknownResult m = \<lparr>browser = Unknown, confidence = 0, method = m\<rparr>"

definition found :: "BrowserType \<Rightarrow> rat \<Rightarrow> DetectionMethodResult \<Rightarrow> DetectionMethodResult" where
  "found b c result = result\<lparr>browser := b, confidence := c\<rparr>"

definition hasChromeRuntimeOnConnect :: "Host \<Rightarrow> bool" where
  "hasChromeRuntimeOnConnect h =
     (case chrome h of None \<Rightarrow> False
      | Some c \<Rightarrow> (case runtime c of None \<Rightarrow> False | Some r \<Rightarrow> onConnect r))"

definition hasChromeWebstore :: "Host \<Rightarrow> bool" where
  "hasChromeWebstore h = (case chrome h of None \<Rightarrow> False | Some c \<Rightarrow> webstore c)"

definition hasSafariPushNotification :: "Host \<Rightarrow> bool" where
  "hasSafariPushNotification h =
     (case safari h of None \<Rightarrow> False | Some s \<Rightarrow> pushNotification s)"

definition hasOperaVersion :: "Host \<Rightarrow> bool" where
  "hasOperaVersion h = (case opera h of None \<Rightarrow> False | Some p \<Rightarrow> truthy (version p))"

definition hasDocumentMode :: "Host \<Rightarrow> bool" where
  "hasDocumentMode h = (case documentMode h of None \<Rightarrow> False | Some n \<Rightarrow> n \<noteq> 0)"

definition userAgentBrands :: "Host \<Rightarrow> Brand list option" where
  "userAgentBrands h = (case userAgentData h of None \<Rightarrow> None | Some d \<Rightarrow> brands d)"

definition apiDetection :: "Host \<Rightarrow> DetectionMethodResult" where
  "apiDetection h =
     (let result = unknownResult ApiDetection
      in if hasChromeRuntimeOnConnect h then found Chrome 0.95 result
         else if hasSafariPushNotification h then found Safari 0.95 result
         else (case userAgentBrands h of
             Some bs \<Rightarrow>
               (let hasEdge = list_ex (\<lambda>b. brand b = ''Microsoft Edge'') bs
                in if hasEdge then found Edge 0.95 result else result)
           | None \<Rightarrow>
               if hasOperaVersion h then found Opera 0.9 result
               else if hasDocumentMode h then found InternetExplorer 0.95 result
               else result))"

definition vendorDetection :: "Host \<Rightarrow> DetectionMethodResult" where
  "vendorDetection h =
     (let result = unknownResult VendorDetection;
          vendor = toLowerCase (vendor h);
          ua = toLowerCase (userAgent h)
      in if includesStr ua ''edg'' then found Edge 0.9 result
         else if includesStr vendor ''google'' then found Chrome 0.9 result
         else if includesStr vendor ''apple'' then found Safari 0.9 result
         else if includesStr vendor ''mozilla'' then found Firefox 0.8 result
         else if vendor = '''' then
           (if includesStr ua ''edg'' \<or> includesStr ua ''edge'' then found Edge 0.8 result
            else if includesStr ua ''android'' \<and> includesStr ua ''chrome'' \<and> includesStr ua ''safari''
              then found Edge 0.7 result
            else result)
         else result)"

definition userAgentDetection :: "Host \<Rightarrow> DetectionMethodResult" where
  "userAgentDetection h =
     (let result = unknownResult UserAgentDetection;
          ua = toLowerCase (userAgent h)
      in if includesStr ua ''edg'' then found Edge 0.85 result
         else if includesStr ua ''chrome'' \<and> \<not> includesStr ua ''edg'' \<and> \<not> includesStr ua ''opr'' then
           (if includesStr ua ''crios'' then found Chrome 0.95 result
            else found Chrome 0.8 result)
         else if includesStr ua ''safari'' \<and> includesStr (toLowerCase (vendor h)) ''google''
           then found Chrome 0.85 result
         else if includesStr ua ''edge'' then found Edge 0.85 result
         else if includesStr ua ''android'' \<and> includesStr ua ''chrome'' \<and> includesStr ua ''safari''
                 \<and> \<not> includesStr ua ''firefox'' \<and> vendor h = ''''
           then found Edge 0.8 result
         else if includesStr ua ''firefox'' \<or> includesStr ua ''fxios'' then found Firefox 0.85 result
         else if includesStr ua ''safari'' \<and> \<not> includesStr ua ''chrome'' then found Safari 0.7 result
         else if includesStr ua ''opr'' \<or> includesStr ua ''opera'' then found Opera 0.85 result
         else if includesStr ua ''msie'' \<or> includesStr ua ''trident''
           then found InternetExplorer 0.95 result
         else result)"

text \<open>
  The feature probe runs inside \<open>try\<close>; its \<open>catch\<close> swallows the exception and the
  result built so far is returned: the initial result when the raise comes before the
  Chrome check, the result of the checks already made when it comes later, and the
  full result when it comes in the clean-up.
\<close>

definition cssDetection :: "Host \<Rightarrow> DetectionMethodResult" where
  "cssDetection h =
     (let result = unknownResult CssDetection
      in if raisesAt (styleProbe h) = Some BeforeChromeCheck then result
         else
           (let result =
                  (if webkitTransform (styleProbe h) \<noteq> '''' \<and> hasChromeWebstore h
                   then found Chrome 0.7 result else result)
            in if raisesAt (styleProbe h) = Some BeforeSafariCheck then result
               else
                 (let result =
                        (if webkitAppearance (styleProbe h) \<noteq> ''''
                            \<and> hasSafariPushNotification h
                         then found Safari 0.7 result else result);
                      ua = toLowerCase (userAgent h)
                  in if raisesAt (styleProbe h) = Some BeforeEdgeCheck then result
                     else if includesStr ua ''edg'' \<or> includesStr ua ''edge''
                       then found Edge 0.7 result
                     else if includesStr ua ''android'' \<and> includesStr ua ''chrome''
                             \<and> includesStr ua ''safari'' \<and> vendor h = ''''
                       then found Edge 0.6 result
                     else result)))"

section \<open>Fusion\<close>

text \<open>
  The three objects that \<open>selectBestResult\<close> fills are keyed by the browser label; a
  JavaScript object lists its string keys in the order of their first insertion, which
  is what \<open>AList.update\<close> keeps. \<open>orZero\<close> is \<open>x || 0\<close> on a number that may be
  \<open>undefined\<close>.
\<close>

record Tally =
  browserCounts :: "(BrowserType \<times> nat) list"
  browserConfidences :: "(BrowserType \<times> rat) list"
  browserResults :: "(BrowserType \<times> DetectionMethodResult) list"

fun orZero :: "'a::zero option \<Rightarrow> 'a" where
  "orZero None = 0"
| "orZero (Some x) = x"

definition emptyTally :: Tally where
  "emptyTally = \<lparr>browserCounts = [], browserConfidences = [], browserResults = []\<rparr>"

definition tallyStep :: "DetectionMethodResult \<Rightarrow> Tally \<Rightarrow> Tally" where
  "tallyStep result t =
     (let b = browser result
      in \<lparr>browserCounts =
            AList.update b (orZero (map_of (browserCounts t) b) + 1) (browserCounts t),
          browserConfidences =
            AList.update b (max (orZero (map_of (browserConfidences t) b)) (confidence result))
              (browserConfidences t),
          browserResults = AList.update b result (browserResults t)\<rparr>)"

definition tally :: "DetectionMethodResult list \<Rightarrow> Tally" where
  "tally methodResults = fold tallyStep methodResults emptyTally"

definition bestStep :: "Tally \<Rightarrow> BrowserType \<Rightarrow> BrowserType \<times> rat \<Rightarrow> BrowserType \<times> rat" where
  "bestStep t b best =
     (let count = orZero (map_of (browserCounts t) b);
          conf = orZero (map_of (browserConfidences t) b);
          score = of_nat count * conf
      in if b = Edge \<and> count \<ge> 2 then (b, score)
         else if b = Chrome \<and> conf \<ge> 0.9 then (b, score)
         else if score > snd best then (b, score)
         else best)"

definition selectBestResult :: "DetectionMethodResult list \<Rightarrow> PartialResult" where
  "selectBestResult methodResults =
     (let t = tally methodResults;
          bestBrowser = fst (fold (bestStep t) (map fst (browserCounts t)) (Unknown, 0));
          bestResult = map_of (browserResults t) bestBrowser
      in \<lparr>browser = bestBrowser,
          confidence = (case bestResult of Some r \<Rightarrow> confidence r | None \<Rightarrow> 0),
          detectionMethods =
            map method (filter (\<lambda>r. browser r = bestBrowser) methodResults)\<rparr>)"

section \<open>Version, engine and operating system\<close>

definition firstOr :: "string option \<Rightarrow> string" where
  "firstOr g = (case g of None \<Rightarrow> ''Unknown'' | Some v \<Rightarrow> if v \<noteq> [] then v else ''Unknown'')"

definition firstGroup :: "captures option \<Rightarrow> string" where
  "firstGroup m = (case m of None \<Rightarrow> ''Unknown'' | Some caps \<Rightarrow> firstOr (capture caps 1))"

definition eitherGroup :: "captures option \<Rightarrow> string" where
  "eitherGroup m =
     (case m of None \<Rightarrow> ''Unknown''
      | Some caps \<Rightarrow>
          (case capture caps 1 of
             Some v \<Rightarrow> if v \<noteq> [] then v else firstOr (capture caps 2)
           | None \<Rightarrow> firstOr (capture caps 2)))"

fun getBrowserVersion :: "Host \<Rightarrow> BrowserType \<Rightarrow> string" where
  "getBrowserVersion h Chrome = firstGroup (match regexPatterns_chrome (userAgent h))"
| "getBrowserVersion h Firefox = firstGroup (match regexPatterns_firefox (userAgent h))"
| "getBrowserVersion h Safari = firstGroup (match regexPatterns_safari (userAgent h))"
| "getBrowserVersion h Edge = firstGroup (match regexPatterns_edge (userAgent h))"
| "getBrowserVersion h Opera = firstGroup (match regexPatterns_opera (userAgent h))"
| "getBrowserVersion h InternetExplorer = eitherGroup (match regexPatterns_ie (userAgent h))"
| "getBrowserVersion h Unknown = ''Unknown''"

fun getEngineInfo :: "Host \<Rightarrow> BrowserType \<Rightarrow> EngineInfo" where
  "getEngineInfo h Chrome = (Blink, getBrowserVersion h Chrome)"
| "getEngineInfo h Edge = (Blink, getBrowserVersion h Edge)"
| "getEngineInfo h Firefox = (Gecko, getBrowserVersion h Firefox)"
| "getEngineInfo h Safari = (WebKit, getBrowserVersion h Safari)"
| "getEngineInfo h Opera = (Blink, getBrowserVersion h Opera)"
| "getEngineInfo h InternetExplorer = (Trident, getBrowserVersion h InternetExplorer)"
| "getEngineInfo h Unknown = (UnknownEngine, ''Unknown'')"

text \<open>\<open>parseInt\<close> on the digits that \<open>\d+\<close> captured.\<close>

definition parseInt :: "string \<Rightarrow> nat" where
  "parseInt s = fold (\<lambda>c n. 10 * n + (of_char c - 48)) s 0"

definition windowsVersion :: "captures option \<Rightarrow> string" where
  "windowsVersion m =
     (case m of None \<Rightarrow> ''Unknown''
      | Some caps \<Rightarrow>
          if capture caps 1 = Some ''10.0'' then ''Windows 10/11''
          else if capture caps 1 = Some ''6.3'' then ''Windows 8.1''
          else if capture caps 1 = Some ''6.2'' then ''Windows 8''
          else if capture caps 1 = Some ''6.1'' then ''Windows 7''
          else ''Unknown'')"

definition macosVersion :: "captures option \<Rightarrow> string" where
  "macosVersion m =
     (case m of None \<Rightarrow> ''Unknown''
      | Some caps \<Rightarrow>
          (case capture caps 1 of None \<Rightarrow> ''Unknown''
           | Some v \<Rightarrow>
               if v \<noteq> [] then
                 (let version = parseInt v
                  in if version \<ge> 15 then ''macOS Big Sur+''
                     else if version \<ge> 14 then ''macOS Mojave''
                     else if version \<ge> 13 then ''macOS High Sierra''
                     else ''Unknown'')
               else ''Unknown''))"

definition androidVersion :: "captures option \<Rightarrow> string" where
  "androidVersion m =
     (case m of None \<Rightarrow> ''Android''
      | Some caps \<Rightarrow>
          (case capture caps 1 of None \<Rightarrow> ''Android''
           | Some v \<Rightarrow> if v \<noteq> [] then ''Android '' @ v else ''Android''))"

definition iosVersion :: "captures option \<Rightarrow> string" where
  "iosVersion m =
     (case m of None \<Rightarrow> ''iOS''
      | Some caps \<Rightarrow>
          (case capture caps 1 of None \<Rightarrow> ''iOS''
           | Some v \<Rightarrow>
               if v \<noteq> [] then
                 (let version = map (\<lambda>c. if c = CHR ''_'' then CHR ''.'' else c) v
                  in ''iOS '' @ version)
               else ''iOS''))"

definition getOSInfo :: "Host \<Rightarrow> OSInfo" where
  "getOSInfo h =
     (let ua = toLowerCase (userAgent h)
      in if test (Lit ''win'') ua \<or> test (Lit ''windows'') ua
           then (Windows, windowsVersion (match regexPatterns_windows ua))
         else if test (Lit ''mac'') ua \<or> test (Lit ''macintosh'') ua
           then (macOS, macosVersion (match regexPatterns_macos ua))
         else if test (Lit ''linux'') ua \<or> test (Lit ''x11'') ua
           then (Linux, ''Linux'')
         else if test (Lit ''android'') ua
           then (Android, androidVersion (match regexPatterns_android ua))
         else if test (Alt (Lit ''iphone'') (Alt (Lit ''ipad'') (Lit ''ipod''))) ua
           then (iOS, iosVersion (match regexPatterns_ios ua))
         else (UnknownOS, ''Unknown''))"

definition getPlatform :: "Host \<Rightarrow> string" where
  "getPlatform h =
     (if detectMobile h then ''Mobile''
      else if detectTablet h then ''Tablet''
      else ''Desktop'')"

section \<open>The engine and its cache\<close>

record Engine =
  cache :: "(string \<times> BrowserDetectionResult) list"

definition newEngine :: Engine where
  "newEngine = \<lparr>cache = []\<rparr>"

definition detectionMethods_list :: "DetectionMethod list" where
  "detectionMethods_list = [ApiDetection, VendorDetection, UserAgentDetection, CssDetection]"

definition cacheKey :: string where
  "cacheKey = ''browser_detection''"

text \<open>
  An extractor call either returns its result or raises; \<open>invokeMethod\<close> is the
  \<open>switch\<close> of \<open>detectBrowser\<close> on the four methods of the class, none of which
  raises on a host of the declared types.
\<close>

datatype exn = Thrown

type_synonym invocation = "DetectionMethod \<Rightarrow> exn + DetectionMethodResult"

fun invokeMethod :: "Host \<Rightarrow> invocation" where
  "invokeMethod h ApiDetection = Inr (apiDetection h)"
| "invokeMethod h VendorDetection = Inr (vendorDetection h)"
| "invokeMethod h UserAgentDetection = Inr (userAgentDetection h)"
| "invokeMethod h CssDetection = Inr (cssDetection h)"

text \<open>One turn of the loop over the methods: \<open>try\<close>, keep a labelled result, \<open>catch\<close>.\<close>

definition tryMethod ::
  "invocation \<Rightarrow> DetectionMethod \<Rightarrow> DetectionMethodResult list \<Rightarrow> DetectionMethodResult list" where
  "tryMethod invoke m methodResults =
     (case invoke m of
        Inl e \<Rightarrow> methodResults
      | Inr methodResult \<Rightarrow>
          if browser methodResult \<noteq> Unknown then methodResults @ [methodResult]
          else methodResults)"

definition initialResult :: "Host \<Rightarrow> BrowserDetectionResult" where
  "initialResult h =
     \<lparr>browser = Unknown, confidence = 0, detectionMethods = [],
      browserVersion = ''Unknown'', engine = UnknownEngine, engineVersion = ''Unknown'',
      platform = ''Unknown'', os = UnknownOS, osVersion = ''Unknown'',
      isMobile = False, isTablet = False, isDesktop = False,
      userAgent_echo = userAgent h, vendor_echo = vendor h, timestamp = now h\<rparr>"

definition assignPartial :: "BrowserDetectionResult \<Rightarrow> PartialResult \<Rightarrow> BrowserDetectionResult" where
  "assignPartial result finalResult =
     result\<lparr>browser := browser finalResult, confidence := confidence finalResult,
            detectionMethods := detectionMethods finalResult\<rparr>"

text \<open>The body of \<open>detectBrowser\<close> after a cache miss.\<close>

definition detect :: "invocation \<Rightarrow> Host \<Rightarrow> BrowserDetectionResult" where
  "detect invoke h =
     (let result = initialResult h;
          methodResults = fold (tryMethod invoke) detectionMethods_list [];
          result = (if methodResults \<noteq> [] then assignPartial result (selectBestResult methodResults)
                    else result);
          result = result\<lparr>isMobile := detectMobile h\<rparr>;
          result = result\<lparr>isTablet := detectTablet h\<rparr>;
          result = result\<lparr>isDesktop := (\<not> isMobile result \<and> \<not> isTablet result)\<rparr>;
          engineInfo = getEngineInfo h (browser result);
          result = result\<lparr>engine := fst engineInfo, engineVersion := snd engineInfo\<rparr>;
          osInfo = getOSInfo h;
          result = result\<lparr>os := fst osInfo, osVersion := snd osInfo\<rparr>;
          result = result\<lparr>browserVersion := getBrowserVersion h (browser result)\<rparr>
      in result)"

definition detectBrowserWith ::
  "invocation \<Rightarrow> Host \<Rightarrow> Engine \<Rightarrow> BrowserDetectionResult \<times> Engine" where
  "detectBrowserWith invoke h s =
     (case map_of (cache s) cacheKey of
        Some cached \<Rightarrow> (cached, s)
      | None \<Rightarrow>
          (let result = detect invoke h
           in (result, s\<lparr>cache := AList.update cacheKey result (cache s)\<rparr>)))"

definition detectBrowser :: "Host \<Rightarrow> Engine \<Rightarrow> BrowserDetectionResult \<times> Engine" where
  "detectBrowser h s = detectBrowserWith (invokeMethod h) h s"

definition clearCache :: "Engine \<Rightarrow> Engine" where
  "clearCache s = s\<lparr>cache := []\<rparr>"


text \<open>A history of calls on one engine instance, each \<open>detectBrowser\<close> with the host of its moment.\<close>

datatype Call = CallDetectBrowser Host | CallClearCache

fun perform :: "Call \<Rightarrow> Engine \<Rightarrow> Engine" where
  "perform (CallDetectBrowser h) s = snd (detectBrowser h s)"
| "perform CallClearCache s = clearCache s"

definition after :: "Call list \<Rightarrow> Engine" where
  "after calls = fold perform calls newEngine"

section \<open>Sample hosts\<close>

definition bareHost :: Host where
  "bareHost =
     \<lparr>userAgent = '''', vendor = '''', maxTouchPoints = 0, ontouchstart = False,
      innerWidth = 1920, chrome = None, InstallTrigger = None, safari = None, opera = None,
      userAgentData = None, documentMode = None,
      styleProbe = \<lparr>raisesAt = None, webkitTransform = '''', webkitAppearance = ''''\<rparr>,
      now = 0\<rparr>"

definition ipadHost :: Host where
  "ipadHost = bareHost
     \<lparr>userAgent := ''Mozilla/5.0 (iPad; CPU OS 17_0 like Mac OS X) AppleWebKit/605.1.15 (KHTML, like Gecko) Version/17.0 Mobile/15E148 Safari/604.1'',
      vendor := ''Apple Computer, Inc.'', maxTouchPoints := 5, ontouchstart := True,
      innerWidth := 1024\<rparr>"

definition edgeHost :: Host where
  "edgeHost = bareHost
     \<lparr>userAgent := ''Mozilla/5.0 (Windows NT 10.0; Win64; x64) AppleWebKit/537.36 (KHTML, like Gecko) Chrome/120.0.0.0 Safari/537.36 Edg/120.0.0.0''\<rparr>"

section \<open>Notions used in the statements\<close>

definition exactlyOne :: "bool \<Rightarrow> bool \<Rightarrow> bool \<Rightarrow> bool" where
  "exactlyOne a b c = (of_bool a + of_bool b + of_bool c = (1::nat))"

text \<open>What \<open>detectBrowser\<close> returns on host \<open>h\<close> after a history of calls on a new engine.\<close>

definition resultAfter :: "Call list \<Rightarrow> Host \<Rightarrow> BrowserDetectionResult" where
  "resultAfter calls h = fst (detectBrowser h (after calls))"

definition flagsCoherent :: "BrowserDetectionResult \<Rightarrow> bool" where
  "flagsCoherent r = (isDesktop r = (\<not> isMobile r \<and> \<not> isTablet r))"

text \<open>The cache invariant: empty, or the one entry under the constant key.\<close>

definition singleSlot :: "Engine \<Rightarrow> bool" where
  "singleSlot s =
     (case cache s of [] \<Rightarrow> True
      | (k, r) # rest \<Rightarrow> k = cacheKey \<and> rest = [] \<and> flagsCoherent r)"

text \<open>An extractor call that contributes nothing: it raised, or its label is \<open>Unknown\<close>.\<close>

fun noCandidate :: "exn + DetectionMethodResult \<Rightarrow> bool" where
  "noCandidate (Inl e) = True"
| "noCandidate (Inr r) = (browser r = Unknown)"

section \<open>More sample hosts\<close>

text \<open>Firefox's install hook and nothing else.\<close>

definition firefoxApiHost :: Host where
  "firefoxApiHost = bareHost\<lparr>InstallTrigger := Some True\<rparr>"

text \<open>Chrome emulating a phone: the user agent of Safari on an iPhone, the vendor of Chrome.\<close>

definition emulationHost :: Host where
  "emulationHost = bareHost
     \<lparr>userAgent := ''Mozilla/5.0 (iPhone; CPU iPhone OS 17_0 like Mac OS X) AppleWebKit/605.1.15 (KHTML, like Gecko) Mobile/15E148 Safari/604.1'',
      vendor := ''Google Inc.''\<rparr>"

definition sierraHost :: Host where
  "sierraHost = bareHost
     \<lparr>userAgent := ''Mozilla/5.0 (Macintosh; Intel Mac OS X 10_12_6) AppleWebKit/605.1.15 (KHTML, like Gecko) Version/11.0 Safari/605.1.15'',
      vendor := ''Apple Computer, Inc.''\<rparr>"

definition xpHost :: Host where
  "xpHost = bareHost
     \<lparr>userAgent := ''Mozilla/5.0 (Windows NT 5.1; rv:52.0) Gecko/20100101 Firefox/52.0''\<rparr>"

definition plainWindowsHost :: Host where
  "plainWindowsHost = bareHost
     \<lparr>userAgent := ''Mozilla/5.0 (Windows; U; en-US) Gecko/20100101 Firefox/52.0''\<rparr>"

text \<open>Edge in a page whose script runs before \<open>document.body\<close> exists.\<close>

definition edgeNoBodyHost :: Host where
  "edgeNoBodyHost = edgeHost
     \<lparr>styleProbe := \<lparr>raisesAt = Some BeforeChromeCheck, webkitTransform = '''',
                     webkitAppearance = ''''\<rparr>\<rparr>"

text \<open>Edge with the Chrome and Safari objects present and both prefixed properties supported.\<close>

definition edgeWebkitHost :: Host where
  "edgeWebkitHost = edgeHost
     \<lparr>chrome := Some \<lparr>runtime = None, webstore = True\<rparr>,
      safari := Some \<lparr>pushNotification = True\<rparr>,
      styleProbe := \<lparr>raisesAt = None, webkitTransform = ''translateZ(0)'',
                     webkitAppearance = ''none''\<rparr>\<rparr>"

text \<open>An engine in which the first extractor raises and the others see the bare host.\<close>

definition faultyInvoke :: invocation where
  "faultyInvoke m = (if m = ApiDetection then Inl Thrown else invokeMethod bareHost m)"

text \<open>An Android phone whose model name contains \<open>win\<close>.\<close>

definition winmaxHost :: Host where
  "winmaxHost = bareHost
     \<lparr>userAgent := ''Mozilla/5.0 (Linux; Android 6.0; Winmax XC4 Build/MRA58K) AppleWebKit/537.36 (KHTML, like Gecko) Chrome/120.0.0.0 Mobile Safari/537.36'',
      vendor := ''Google Inc.''\<rparr>"

definition androidHost :: Host where
  "androidHost = bareHost
     \<lparr>userAgent := ''Mozilla/5.0 (Linux; Android 13; SM-G991B) AppleWebKit/537.36 (KHTML, like Gecko) Chrome/120.0.0.0 Mobile Safari/537.36'',
      vendor := ''Google Inc.''\<rparr>"

text \<open>A user agent with the Android token and none of the tokens tested before it.\<close>

definition dalvikHost :: Host where
  "dalvikHost = bareHost\<lparr>userAgent := ''Dalvik/2.1.0 (Android 13; Pixel 7)''\<rparr>"

section \<open>The candidate list, described directly\<close>

text \<open>
  For a label: how many candidates carry it, the greatest confidence among them (0
  without any) and the score, their product. \<open>labelOrder\<close> lists the labels in the
  order of their first candidate, and \<open>labelsAfter b\<close> those whose first candidate
  comes after the first candidate of \<open>b\<close>.
\<close>

definition candidatesOf :: "BrowserType \<Rightarrow> DetectionMethodResult list \<Rightarrow> DetectionMethodResult list" where
  "candidatesOf b rs = filter (\<lambda>r. browser r = b) rs"

definition countOf :: "BrowserType \<Rightarrow> DetectionMethodResult list \<Rightarrow> nat" where
  "countOf b rs = length (candidatesOf b rs)"

definition maxConfidenceOf :: "BrowserType \<Rightarrow> DetectionMethodResult list \<Rightarrow> rat" where
  "maxConfidenceOf b rs = fold max (map confidence (candidatesOf b rs)) 0"

definition scoreOf :: "BrowserType \<Rightarrow> DetectionMethodResult list \<Rightarrow> rat" where
  "scoreOf b rs = of_nat (countOf b rs) * maxConfidenceOf b rs"

definition labelOrder :: "DetectionMethodResult list \<Rightarrow> BrowserType list" where
  "labelOrder rs =
     fold (\<lambda>r seen. if browser r \<in> set seen then seen else seen @ [browser r]) rs []"

definition labelsAfter :: "BrowserType \<Rightarrow> DetectionMethodResult list \<Rightarrow> BrowserType list" where
  "labelsAfter b rs = tl (dropWhile (\<lambda>l. l \<noteq> b) (labelOrder rs))"

text \<open>
  A label that replaces Edge as the running best when the pass over the labels reaches
  it after Edge: Chrome at a confidence of 0.9 or more, or any label with a score above
  the score of Edge.
\<close>

definition outranksEdge :: "DetectionMethodResult list \<Rightarrow> BrowserType \<Rightarrow> bool" where
  "outranksEdge rs b =
     ((b = Chrome \<and> maxConfidenceOf b rs \<ge> 0.9) \<or> scoreOf b rs > scoreOf Edge rs)"

section \<open>Sample candidate lists\<close>

text \<open>What the extractors produce on \<open>edgeHost\<close>.\<close>

definition edgeCandidates :: "DetectionMethodResult list" where
  "edgeCandidates =
     [\<lparr>browser = Edge, confidence = 0.9, method = VendorDetection\<rparr>,
      \<lparr>browser = Edge, confidence = 0.85, method = UserAgentDetection\<rparr>,
      \<lparr>browser = Edge, confidence = 0.7, method = CssDetection\<rparr>]"

text \<open>
  A host whose brand list names Edge, whose vendor is empty and whose user agent has
  the tokens \<open>android\<close>, \<open>chrome\<close>, \<open>safari\<close> and \<open>crios\<close>, and its candidates.
\<close>

definition crossHost :: Host where
  "crossHost = bareHost
     \<lparr>userAgent := ''Mozilla/5.0 (Linux; Android 13) AppleWebKit/537.36 (KHTML, like Gecko) Chrome/120.0.0.0 CriOS/120.0 Mobile Safari/537.36'',
      userAgentData := Some \<lparr>brands = Some [\<lparr>brand = ''Microsoft Edge'', brand_version = ''120''\<rparr>]\<rparr>\<rparr>"

definition crossCandidates :: "DetectionMethodResult list" where
  "crossCandidates =
     [\<lparr>browser = Edge, confidence = 0.95, method = ApiDetection\<rparr>,
      \<lparr>browser = Edge, confidence = 0.7, method = VendorDetection\<rparr>,
      \<lparr>browser = Chrome, confidence = 0.95, method = UserAgentDetection\<rparr>,
      \<lparr>browser = Edge, confidence = 0.6, method = CssDetection\<rparr>]"

text \<open>The same without the \<open>crios\<close> token: the user-agent extractor gives Chrome at 0.8.\<close>

definition mildCandidates :: "DetectionMethodResult list" where
  "mildCandidates =
     [\<lparr>browser = Edge, confidence = 0.95, method = ApiDetection\<rparr>,
      \<lparr>browser = Edge, confidence = 0.7, method = VendorDetection\<rparr>,
      \<lparr>browser = Chrome, confidence = 0.8, method = UserAgentDetection\<rparr>,
      \<lparr>browser = Edge, confidence = 0.6, method = CssDetection\<rparr>]"

text \<open>The candidates that the loop of \<open>detectBrowser\<close> collects on a host.\<close>

definition candidates :: "Host \<Rightarrow> DetectionMethodResult list" where
  "candidates h = fold (tryMethod (invokeMethod h)) detectionMethods_list []"

text \<open>The host of \<open>mildCandidates\<close>: \<open>crossHost\<close> without the \<open>crios\<close> token.\<close>

definition mildHost :: Host where
  "mildHost = crossHost
     \<lparr>userAgent := ''Mozilla/5.0 (Linux; Android 13) AppleWebKit/537.36 (KHTML, like Gecko) Chrome/120.0.0.0 Mobile Safari/537.36''\<rparr>"

text \<open>The probe reaches its check of the user agent: no statement before it raises.\<close>

definition reachesEdgeCheck :: "StyleProbe \<Rightarrow> bool" where
  "reachesEdgeCheck p = (raisesAt p = None \<or> raisesAt p = Some AtCleanup)"

section \<open>Runtimes without a window\<close>

text \<open>
  The module itself tests \<open>typeof window !== 'undefined'\<close> before it touches
  \<open>window\<close>: it may be loaded where there is none (Node, a worker). A runtime is
  either a page, with \<open>window\<close>, \<open>navigator\<close> and \<open>document\<close> of the declared
  types, or has \<open>navigator\<close> with a user agent and neither \<open>window\<close> nor
  \<open>document\<close>. Without a window, a cache hit returns the cached result; on a cache
  miss the extractors that read \<open>window\<close> raise inside the \<open>try\<close> of the loop and
  are caught, but \<open>detectMobile\<close> reads \<open>window\<close> after the loop, outside every
  \<open>try\<close>, and \<open>detectBrowser\<close> raises before it stores anything.
\<close>

datatype Runtime = Page Host | NoWindow

definition detectBrowserOn ::
  "invocation \<Rightarrow> Runtime \<Rightarrow> Engine \<Rightarrow> exn + (BrowserDetectionResult \<times> Engine)" where
  "detectBrowserOn invoke rt s =
     (case rt of
        Page h \<Rightarrow> Inr (detectBrowserWith invoke h s)
      | NoWindow \<Rightarrow>
          (case map_of (cache s) cacheKey of
             Some cached \<Rightarrow> Inr (cached, s)
           | None \<Rightarrow> Inl Thrown))"

text \<open>
  The extractor calls in Node, where \<open>navigator.userAgent\<close> is \<open>Node.js/21\<close> and
  \<open>navigator.vendor\<close> is undefined: \<open>apiDetection\<close> raises on \<open>window\<close>,
  \<open>vendorDetection\<close> on \<open>navigator.vendor.toLowerCase()\<close>; \<open>userAgentDetection\<close>
  finds no token, and \<open>cssDetection\<close> catches the raise on \<open>document\<close> itself.
\<close>

fun noWindowInvoke :: invocation where
  "noWindowInvoke ApiDetection = Inl Thrown"
| "noWindowInvoke VendorDetection = Inl Thrown"
| "noWindowInvoke UserAgentDetection = Inr (unknownResult UserAgentDetection)"
| "noWindowInvoke CssDetection = Inr (unknownResult CssDetection)"

section \<open>Evaluation of characters\<close>

lemma lowerChar_Char:
  "lowerChar (Char b0 b1 b2 b3 b4 b5 b6 b7) =
     (if b6 \<and> \<not> b5 \<and> (if b7 then \<not> (b4 \<and> b2 \<and> b1 \<and> b0)
                         else (b0 \<or> b1 \<or> b2 \<or> b3 \<or> b4) \<and> \<not> (b4 \<and> b3 \<and> (b2 \<or> (b1 \<and> b0))))
      then Char b0 b1 b2 b3 b4 True b6 b7 else Char b0 b1 b2 b3 b4 b5 b6 b7)"
  by (cases b0; cases b1; cases b2; cases b3; cases b4; cases b5; cases b6; cases b7)
     (simp_all add: lowerChar_def char_of_def bit_0)

lemma lowerChar_idem: "lowerChar (lowerChar c) = lowerChar c"
  by (cases c) (simp add: lowerChar_Char)

lemmas extractor_defs =
  apiDetection_def vendorDetection_def userAgentDetection_def cssDetection_def
  unknownResult_def found_def hasChromeRuntimeOnConnect_def hasChromeWebstore_def
  hasSafariPushNotification_def hasOperaVersion_def hasDocumentMode_def userAgentBrands_def

lemmas host_defs =
  bareHost_def ipadHost_def edgeHost_def firefoxApiHost_def emulationHost_def sierraHost_def
  xpHost_def plainWindowsHost_def edgeNoBodyHost_def edgeWebkitHost_def winmaxHost_def
  androidHost_def dalvikHost_def crossHost_def

lemmas pattern_defs =
  regexPatterns_chrome_def regexPatterns_firefox_def regexPatterns_safari_def
  regexPatterns_edge_def regexPatterns_opera_def regexPatterns_ie_def
  regexPatterns_android_def regexPatterns_ios_def regexPatterns_windows_def
  regexPatterns_macos_def dottedNumber_def isDigit_def isSpace_def capture_def

section \<open>Device class flags\<close>

lemma detect_flags: "flagsCoherent (detect invoke h)"
  by (simp add: detect_def flagsCoherent_def Let_def)

lemma detect_isMobile: "isMobile (detect invoke h) = detectMobile h"
  and detect_isTablet: "isTablet (detect invoke h) = detectTablet h"
  by (simp_all add: detect_def Let_def)

lemma singleSlot_newEngine: "singleSlot newEngine"
  by (simp add: singleSlot_def newEngine_def)

lemma singleSlot_detectBrowser: "singleSlot s \<Longrightarrow> singleSlot (snd (detectBrowser h s))"
  by (auto simp: singleSlot_def detectBrowser_def detectBrowserWith_def Let_def detect_flags
      split: list.splits option.splits)

lemma singleSlot_perform: "singleSlot s \<Longrightarrow> singleSlot (perform c s)"
  by (cases c) (simp_all add: singleSlot_detectBrowser, simp add: singleSlot_def clearCache_def)

lemma singleSlot_fold: "singleSlot s \<Longrightarrow> singleSlot (fold perform calls s)"
  by (induction calls arbitrary: s) (simp_all add: singleSlot_perform)

lemma singleSlot_after: "singleSlot (after calls)"
  by (simp add: after_def singleSlot_fold singleSlot_newEngine)

lemma singleSlot_result: "singleSlot s \<Longrightarrow> flagsCoherent (fst (detectBrowser h s))"
  by (auto simp: singleSlot_def detectBrowser_def detectBrowserWith_def Let_def detect_flags
      split: list.splits option.splits if_splits)

lemma exactlyOne_flags:
  "flagsCoherent r \<Longrightarrow>
   exactlyOne (isMobile r) (isTablet r) (isDesktop r) = (\<not> (isMobile r \<and> isTablet r))"
  by (auto simp: flagsCoherent_def exactlyOne_def)

lemma fresh_result: "fst (detectBrowser h newEngine) = detect (invokeMethod h) h"
  by (simp add: detectBrowser_def detectBrowserWith_def newEngine_def Let_def)

text \<open>
  C1, as the code has it. Whatever calls were made on the engine before, the result
  that \<open>detectBrowser\<close> returns has \<open>isDesktop\<close> true exactly when \<open>isMobile\<close> and
  \<open>isTablet\<close> are both false, so at least one of the three flags is true and
  \<open>isDesktop\<close> never holds together with another flag. \<open>isMobile\<close> and \<open>isTablet\<close>
  are decided independently, by \<open>detectMobile\<close> and \<open>detectTablet\<close>, so exactly one of
  the three flags is true if and only if these two are not both true.
\<close>

theorem detectBrowser_device_flags:
  "isDesktop (resultAfter calls h)
     = (\<not> isMobile (resultAfter calls h) \<and> \<not> isTablet (resultAfter calls h))
   \<and> exactlyOne (isMobile (resultAfter calls h)) (isTablet (resultAfter calls h))
        (isDesktop (resultAfter calls h))
      = (\<not> (isMobile (resultAfter calls h) \<and> isTablet (resultAfter calls h)))
   \<and> isMobile (resultAfter [] h) = detectMobile h
   \<and> isTablet (resultAfter [] h) = detectTablet h"
proof -
  have c: "flagsCoherent (resultAfter calls h)"
    unfolding resultAfter_def by (rule singleSlot_result [OF singleSlot_after])
  have f: "resultAfter [] h = detect (invokeMethod h) h"
    by (simp add: resultAfter_def after_def fresh_result)
  from c have "isDesktop (resultAfter calls h)
      = (\<not> isMobile (resultAfter calls h) \<and> \<not> isTablet (resultAfter calls h))"
    by (simp add: flagsCoherent_def)
  with exactlyOne_flags [OF c] f show ?thesis
    by (simp add: detect_isMobile detect_isTablet)
qed

lemma ipad_lower:
  "toLowerCase (userAgent ipadHost) =
     ''mozilla/5.0 (ipad; cpu os 17_0 like mac os x) applewebkit/605.1.15 (khtml, like gecko) version/17.0 mobile/15e148 safari/604.1''"
  by (simp add: host_defs toLowerCase_def lowerChar_Char)

lemma ipad_mobile: "detectMobile ipadHost"
  unfolding detectMobile_def ipad_lower by (simp add: mobileKeywords_def)

lemma ipad_tablet: "detectTablet ipadHost"
  unfolding detectTablet_def ipad_lower by (simp add: tabletKeywords_def)

text \<open>
  C1 as stated fails on the user agent of an iPad, which contains both the mobile
  keyword \<open>mobile\<close> and the tablet keyword \<open>ipad\<close>: \<open>isMobile\<close> and \<open>isTablet\<close>
  are both true there.
\<close>

theorem detectBrowser_device_flags_counterexample:
  "\<not> exactlyOne (isMobile (fst (detectBrowser ipadHost newEngine)))
        (isTablet (fst (detectBrowser ipadHost newEngine)))
        (isDesktop (fst (detectBrowser ipadHost newEngine)))"
  by (simp add: fresh_result detect_isMobile detect_isTablet ipad_mobile ipad_tablet
      exactlyOne_def)

theorem detectBrowser_device_flags_witness:
  "isMobile (resultAfter [CallDetectBrowser edgeHost, CallClearCache] ipadHost)
   \<and> isTablet (resultAfter [CallDetectBrowser edgeHost, CallClearCache] ipadHost)
   \<and> \<not> isDesktop (resultAfter [CallDetectBrowser edgeHost, CallClearCache] ipadHost)
   \<and> \<not> exactlyOne (isMobile (resultAfter [CallDetectBrowser edgeHost, CallClearCache] ipadHost))
        (isTablet (resultAfter [CallDetectBrowser edgeHost, CallClearCache] ipadHost))
        (isDesktop (resultAfter [CallDetectBrowser edgeHost, CallClearCache] ipadHost))"
proof -
  have r: "resultAfter [CallDetectBrowser edgeHost, CallClearCache] ipadHost
      = detect (invokeMethod ipadHost) ipadHost"
    by (simp add: resultAfter_def after_def clearCache_def detectBrowser_def
        detectBrowserWith_def Let_def)
  have m: "isMobile (resultAfter [CallDetectBrowser edgeHost, CallClearCache] ipadHost)"
    by (simp add: r detect_isMobile ipad_mobile)
  have t: "isTablet (resultAfter [CallDetectBrowser edgeHost, CallClearCache] ipadHost)"
    by (simp add: r detect_isTablet ipad_tablet)
  from m t detectBrowser_device_flags [of "[CallDetectBrowser edgeHost, CallClearCache]" ipadHost]
  show ?thesis by (simp add: exactlyOne_def)
qed

section \<open>The capability-API extractor\<close>

lemma apiDetection_never_Firefox: "browser (apiDetection h) \<noteq> Firefox"
  by (simp add: extractor_defs Let_def split: option.splits)

text \<open>
  C4. The claim has the Firefox install hook tested first and a Firefox candidate
  returned where the hook is present. \<open>apiDetection\<close> never reads
  \<open>window.InstallTrigger\<close>: on a host with the hook and no other capability object it
  returns the label \<open>Unknown\<close> with confidence 0.
\<close>

theorem apiDetection_ignores_InstallTrigger:
  "InstallTrigger firefoxApiHost = Some True
   \<and> apiDetection firefoxApiHost = \<lparr>browser = Unknown, confidence = 0, method = ApiDetection\<rparr>"
  by (simp add: extractor_defs host_defs)

section \<open>Version resolution\<close>

lemma emulation_lower:
  "toLowerCase (userAgent emulationHost) =
     ''mozilla/5.0 (iphone; cpu iphone os 17_0 like mac os x) applewebkit/605.1.15 (khtml, like gecko) mobile/15e148 safari/604.1''"
  by (simp add: host_defs toLowerCase_def lowerChar_Char)

lemma emulation_vendor: "toLowerCase (vendor emulationHost) = ''google inc.''"
  by (simp add: host_defs toLowerCase_def lowerChar_Char)

lemma emulation_candidates:
  "fold (tryMethod (invokeMethod emulationHost)) detectionMethods_list [] =
     [\<lparr>browser = Chrome, confidence = 0.9, method = VendorDetection\<rparr>,
      \<lparr>browser = Chrome, confidence = 0.85, method = UserAgentDetection\<rparr>]"
proof -
  have "apiDetection emulationHost = \<lparr>browser = Unknown, confidence = 0, method = ApiDetection\<rparr>"
    by (simp add: extractor_defs host_defs)
  moreover have
    "vendorDetection emulationHost
       = \<lparr>browser = Chrome, confidence = 0.9, method = VendorDetection\<rparr>"
    unfolding vendorDetection_def emulation_lower emulation_vendor
    by (simp add: unknownResult_def found_def Let_def)
  moreover have
    "userAgentDetection emulationHost
       = \<lparr>browser = Chrome, confidence = 0.85, method = UserAgentDetection\<rparr>"
    unfolding userAgentDetection_def emulation_lower emulation_vendor
    by (simp add: unknownResult_def found_def Let_def)
  moreover have
    "cssDetection emulationHost = \<lparr>browser = Unknown, confidence = 0, method = CssDetection\<rparr>"
    unfolding cssDetection_def emulation_lower
    by (simp add: unknownResult_def found_def host_defs hasChromeWebstore_def
        hasSafariPushNotification_def Let_def)
  ultimately show ?thesis
    by (simp add: detectionMethods_list_def tryMethod_def)
qed

lemma detect_browser:
  assumes "fold (tryMethod invoke) detectionMethods_list [] = rs" and "rs \<noteq> []"
  shows "browser (detect invoke h) = browser (selectBestResult rs)"
  using assms by (simp add: detect_def Let_def assignPartial_def)

lemma detect_browserVersion:
  "browserVersion (detect invoke h) = getBrowserVersion h (browser (detect invoke h))"
  by (simp add: detect_def Let_def)

lemma emulation_label: "browser (detect (invokeMethod emulationHost) emulationHost) = Chrome"
  by (simp add: detect_browser [OF emulation_candidates] selectBestResult_def tally_def
      tallyStep_def emptyTally_def bestStep_def Let_def)

text \<open>
  C5. The claim has \<open>getBrowserVersion\<close> fall back to the first dotted number of the
  user agent when the label's pattern fails. On Chrome emulating a phone (the user
  agent of Safari on an iPhone, without a \<open>Chrome/\<close> token, and the vendor of
  Chrome) \<open>detectBrowser\<close> finds the label Chrome, the pattern of Chrome fails and
  \<open>getBrowserVersion\<close> returns \<open>Unknown\<close>, although the user agent holds the
  dotted number \<open>5.0\<close>.
\<close>

theorem getBrowserVersion_no_generic_fallback:
  "getBrowserVersion emulationHost Chrome = ''Unknown''
   \<and> firstGroup (match (Group 1 dottedNumber) (userAgent emulationHost)) = ''5.0''
   \<and> browser (fst (detectBrowser emulationHost newEngine)) = Chrome
   \<and> browserVersion (fst (detectBrowser emulationHost newEngine)) = ''Unknown''"
proof -
  have v: "getBrowserVersion emulationHost Chrome = ''Unknown''"
    by (simp add: host_defs pattern_defs firstGroup_def firstOr_def lowerChar_Char)
  have g: "firstGroup (match (Group 1 dottedNumber) (userAgent emulationHost)) = ''5.0''"
    by (simp add: host_defs pattern_defs firstGroup_def firstOr_def lowerChar_Char)
  from v g show ?thesis
    by (simp add: fresh_result detect_browserVersion emulation_label)
qed

section \<open>Operating system resolution\<close>

text \<open>
  C8. The claim has \<open>osVersion\<close> fall back to \<open><OS> <version>\<close> for a version
  token outside the table and to the bare family name without a version token. The
  Windows and macOS branches leave \<open>osVersion\<close> at \<open>Unknown\<close> in both cases: macOS
  10.12 and Windows NT 5.1 carry a version token that the table lacks, and a user agent
  with only the \<open>Windows\<close> token carries none.
\<close>

theorem getOSInfo_no_fallback:
  "getOSInfo sierraHost = (macOS, ''Unknown'')
   \<and> getOSInfo xpHost = (Windows, ''Unknown'')
   \<and> getOSInfo plainWindowsHost = (Windows, ''Unknown'')"
  by (simp add: getOSInfo_def test_def host_defs pattern_defs toLowerCase_def lowerChar_Char
      windowsVersion_def macosVersion_def parseInt_def Let_def)

section \<open>The feature-probe extractor\<close>

lemma edge_lower:
  "toLowerCase (userAgent edgeHost) =
     ''mozilla/5.0 (windows nt 10.0; win64; x64) applewebkit/537.36 (khtml, like gecko) chrome/120.0.0.0 safari/537.36 edg/120.0.0.0''"
  by (simp add: host_defs toLowerCase_def lowerChar_Char)

lemma edge_has_edg: "includesStr (toLowerCase (userAgent edgeHost)) ''edg''"
  unfolding edge_lower by simp

lemma cssDetection_reached:
  assumes "reachesEdgeCheck (styleProbe h)"
      and "includesStr (toLowerCase (userAgent h)) ''edg''
           \<or> includesStr (toLowerCase (userAgent h)) ''edge''"
  shows "cssDetection h = \<lparr>browser = Edge, confidence = 0.7, method = CssDetection\<rparr>"
  using assms
  by (auto simp: cssDetection_def reachesEdgeCheck_def unknownResult_def found_def Let_def)

lemma cssDetection_raised:
  assumes "\<not> reachesEdgeCheck (styleProbe h)"
  shows "browser (cssDetection h) \<noteq> Edge"
proof (cases "raisesAt (styleProbe h)")
  case None
  with assms show ?thesis by (simp add: reachesEdgeCheck_def)
next
  case (Some p)
  with assms show ?thesis
    by (cases p)
       (simp_all add: cssDetection_def reachesEdgeCheck_def unknownResult_def found_def Let_def)
qed

text \<open>
  C9, as the code has it. When the lower-cased user agent contains \<open>edg\<close> or
  \<open>edge\<close>: if no statement of the probe before its check of the user agent raises,
  \<open>cssDetection\<close> returns Edge at confidence 0.7, whatever the Chrome and Safari
  objects and the prefixed style properties are, so the check of the user agent
  overwrites a Chrome or Safari candidate; if a statement before that check raises, the
  \<open>catch\<close> returns the result built so far, which is never Edge: the initial result
  (label \<open>Unknown\<close>, confidence 0) when the raise comes before the Chrome check, and
  the Chrome candidate at 0.7 or, without one, the initial result when it comes between
  the Chrome check and the Safari check.
\<close>

theorem cssDetection_edge_overwrites:
  assumes "includesStr (toLowerCase (userAgent h)) ''edg''
           \<or> includesStr (toLowerCase (userAgent h)) ''edge''"
  shows "(reachesEdgeCheck (styleProbe h) \<longrightarrow>
            cssDetection h = \<lparr>browser = Edge, confidence = 0.7, method = CssDetection\<rparr>)
       \<and> (\<not> reachesEdgeCheck (styleProbe h) \<longrightarrow> browser (cssDetection h) \<noteq> Edge)
       \<and> (raisesAt (styleProbe h) = Some BeforeChromeCheck \<longrightarrow>
            cssDetection h = \<lparr>browser = Unknown, confidence = 0, method = CssDetection\<rparr>)
       \<and> (raisesAt (styleProbe h) = Some BeforeSafariCheck \<longrightarrow>
            cssDetection h =
              (if webkitTransform (styleProbe h) \<noteq> '''' \<and> hasChromeWebstore h
               then \<lparr>browser = Chrome, confidence = 0.7, method = CssDetection\<rparr>
               else \<lparr>browser = Unknown, confidence = 0, method = CssDetection\<rparr>))"
proof -
  have "raisesAt (styleProbe h) = Some BeforeChromeCheck \<longrightarrow>
      cssDetection h = \<lparr>browser = Unknown, confidence = 0, method = CssDetection\<rparr>"
    by (simp add: cssDetection_def unknownResult_def)
  moreover have "raisesAt (styleProbe h) = Some BeforeSafariCheck \<longrightarrow>
      cssDetection h =
        (if webkitTransform (styleProbe h) \<noteq> '''' \<and> hasChromeWebstore h
         then \<lparr>browser = Chrome, confidence = 0.7, method = CssDetection\<rparr>
         else \<lparr>browser = Unknown, confidence = 0, method = CssDetection\<rparr>)"
    by (simp add: cssDetection_def unknownResult_def found_def Let_def)
  ultimately show ?thesis
    using cssDetection_reached [OF _ assms] cssDetection_raised [of h] by blast
qed

text \<open>
  C9 as stated fails when the probe raises before its first check (no
  \<open>document.body\<close> yet): the \<open>catch\<close> returns the initial result, label \<open>Unknown\<close>.
\<close>

theorem cssDetection_edge_counterexample:
  "includesStr (toLowerCase (userAgent edgeNoBodyHost)) ''edg''
   \<and> cssDetection edgeNoBodyHost = \<lparr>browser = Unknown, confidence = 0, method = CssDetection\<rparr>"
proof -
  have "userAgent edgeNoBodyHost = userAgent edgeHost"
    by (simp add: edgeNoBodyHost_def)
  moreover have "raisesAt (styleProbe edgeNoBodyHost) = Some BeforeChromeCheck"
    by (simp add: edgeNoBodyHost_def)
  ultimately show ?thesis
    using edge_has_edg by (simp add: cssDetection_def unknownResult_def)
qed

theorem cssDetection_edge_witness:
  "reachesEdgeCheck (styleProbe edgeWebkitHost)
   \<and> includesStr (toLowerCase (userAgent edgeWebkitHost)) ''edg''
   \<and> webkitTransform (styleProbe edgeWebkitHost) \<noteq> '''' \<and> hasChromeWebstore edgeWebkitHost
   \<and> webkitAppearance (styleProbe edgeWebkitHost) \<noteq> ''''
   \<and> hasSafariPushNotification edgeWebkitHost
   \<and> cssDetection edgeWebkitHost = \<lparr>browser = Edge, confidence = 0.7, method = CssDetection\<rparr>
   \<and> raisesAt (styleProbe edgeNoBodyHost) = Some BeforeChromeCheck
   \<and> browser (cssDetection edgeNoBodyHost) \<noteq> Edge"
proof -
  have u: "userAgent edgeWebkitHost = userAgent edgeHost"
    "userAgent edgeNoBodyHost = userAgent edgeHost"
    by (simp_all add: edgeWebkitHost_def edgeNoBodyHost_def)
  have p: "reachesEdgeCheck (styleProbe edgeWebkitHost)"
    by (simp add: edgeWebkitHost_def reachesEdgeCheck_def)
  have q: "raisesAt (styleProbe edgeNoBodyHost) = Some BeforeChromeCheck"
    "\<not> reachesEdgeCheck (styleProbe edgeNoBodyHost)"
    by (simp_all add: edgeNoBodyHost_def reachesEdgeCheck_def)
  have e: "includesStr (toLowerCase (userAgent edgeWebkitHost)) ''edg''"
    "includesStr (toLowerCase (userAgent edgeNoBodyHost)) ''edg''"
    using edge_has_edg by (simp_all add: u)
  have "cssDetection edgeWebkitHost = \<lparr>browser = Edge, confidence = 0.7, method = CssDetection\<rparr>"
    using cssDetection_edge_overwrites [of edgeWebkitHost] p e by blast
  moreover have "browser (cssDetection edgeNoBodyHost) \<noteq> Edge"
    using cssDetection_edge_overwrites [of edgeNoBodyHost] q e by blast
  ultimately show ?thesis using p q e
    by (simp add: edgeWebkitHost_def hasChromeWebstore_def hasSafariPushNotification_def)
qed

section \<open>The cache\<close>

lemma detectBrowser_stores:
  "map_of (cache (snd (detectBrowser h s))) cacheKey = Some (fst (detectBrowser h s))"
  by (simp add: detectBrowser_def detectBrowserWith_def Let_def update_conv'
      split: option.splits)

lemma detectBrowser_hit:
  "map_of (cache s) cacheKey = Some r \<Longrightarrow> detectBrowser h s = (r, s)"
  by (simp add: detectBrowser_def detectBrowserWith_def)




section \<open>Literal patterns on a lower-case string\<close>

lemma startsWith_i_lower:
  "\<forall>c \<in> set k. lowerChar c = c \<Longrightarrow>
   startsWith_i (map lowerChar s) k = startsWith (map lowerChar s) k"
  by (induction s k rule: startsWith.induct) (auto simp: lowerChar_idem)

lemma test_Lit_lower:
  assumes "\<forall>c \<in> set k. lowerChar c = c"
  shows "test (Lit k) (toLowerCase s) = includesStr (toLowerCase s) k"
proof (induction s)
  case Nil
  then show ?case by (cases k) (simp_all add: test_def toLowerCase_def)
next
  case (Cons c cs)
  have "startsWith_i (map lowerChar (c # cs)) k = startsWith (map lowerChar (c # cs)) k"
    by (rule startsWith_i_lower [OF assms])
  with Cons show ?case by (simp add: test_def toLowerCase_def)
qed

lemma startsWith_append: "startsWith s (k @ k') \<Longrightarrow> startsWith s k"
  by (induction s k rule: startsWith.induct) auto

lemma includesStr_append: "includesStr s (k @ k') \<Longrightarrow> includesStr s k"
  by (induction s) (auto dest: startsWith_append)

lemma windows_has_win: "includesStr s ''windows'' \<Longrightarrow> includesStr s ''win''"
  using includesStr_append [of s "''win''" "''dows''"] by simp

lemma macintosh_has_mac: "includesStr s ''macintosh'' \<Longrightarrow> includesStr s ''mac''"
  using includesStr_append [of s "''mac''" "''intosh''"] by simp

lemma os_tests:
  "test (Lit ''win'') (toLowerCase s) = includesStr (toLowerCase s) ''win''"
  "test (Lit ''windows'') (toLowerCase s) = includesStr (toLowerCase s) ''windows''"
  "test (Lit ''mac'') (toLowerCase s) = includesStr (toLowerCase s) ''mac''"
  "test (Lit ''macintosh'') (toLowerCase s) = includesStr (toLowerCase s) ''macintosh''"
  "test (Lit ''linux'') (toLowerCase s) = includesStr (toLowerCase s) ''linux''"
  "test (Lit ''x11'') (toLowerCase s) = includesStr (toLowerCase s) ''x11''"
  "test (Lit ''android'') (toLowerCase s) = includesStr (toLowerCase s) ''android''"
  by (rule test_Lit_lower, simp add: lowerChar_Char)+

text \<open>
  C10, as the code has it. When the lower-cased user agent contains \<open>linux\<close> and
  \<open>android\<close> and neither \<open>win\<close> nor \<open>mac\<close>, \<open>getOSInfo\<close> returns Linux with
  \<open>osVersion\<close> \<open>Linux\<close>; and it takes the Android branch exactly when the lower-cased
  user agent contains \<open>android\<close> and none of \<open>win\<close>, \<open>mac\<close>, \<open>linux\<close>, \<open>x11\<close>.
\<close>

theorem getOSInfo_linux_before_android:
  "(includesStr (toLowerCase (userAgent h)) ''linux''
      \<and> includesStr (toLowerCase (userAgent h)) ''android''
      \<and> \<not> includesStr (toLowerCase (userAgent h)) ''win''
      \<and> \<not> includesStr (toLowerCase (userAgent h)) ''mac''
    \<longrightarrow> getOSInfo h = (Linux, ''Linux''))
   \<and> ((fst (getOSInfo h) = Android)
        = (includesStr (toLowerCase (userAgent h)) ''android''
           \<and> \<not> includesStr (toLowerCase (userAgent h)) ''win''
           \<and> \<not> includesStr (toLowerCase (userAgent h)) ''mac''
           \<and> \<not> includesStr (toLowerCase (userAgent h)) ''linux''
           \<and> \<not> includesStr (toLowerCase (userAgent h)) ''x11''))"
  using windows_has_win [of "toLowerCase (userAgent h)"]
        macintosh_has_mac [of "toLowerCase (userAgent h)"]
  by (auto simp: getOSInfo_def Let_def os_tests)

lemma winmax_lower:
  "toLowerCase (userAgent winmaxHost) =
     ''mozilla/5.0 (linux; android 6.0; winmax xc4 build/mra58k) applewebkit/537.36 (khtml, like gecko) chrome/120.0.0.0 mobile safari/537.36''"
  by (simp add: host_defs toLowerCase_def lowerChar_Char)

text \<open>
  C10 as stated fails on an Android user agent that also contains \<open>win\<close>: the Windows
  branch is tested first.
\<close>

theorem getOSInfo_linux_before_android_counterexample:
  "includesStr (toLowerCase (userAgent winmaxHost)) ''linux''
   \<and> includesStr (toLowerCase (userAgent winmaxHost)) ''android''
   \<and> getOSInfo winmaxHost = (Windows, ''Unknown'')"
  unfolding getOSInfo_def winmax_lower
  by (simp add: test_def pattern_defs lowerChar_Char windowsVersion_def)

lemma android_lower:
  "toLowerCase (userAgent androidHost) =
     ''mozilla/5.0 (linux; android 13; sm-g991b) applewebkit/537.36 (khtml, like gecko) chrome/120.0.0.0 mobile safari/537.36''"
  by (simp add: host_defs toLowerCase_def lowerChar_Char)

lemma dalvik_lower:
  "toLowerCase (userAgent dalvikHost) = ''dalvik/2.1.0 (android 13; pixel 7)''"
  by (simp add: host_defs toLowerCase_def lowerChar_Char)

theorem getOSInfo_linux_before_android_witness:
  "includesStr (toLowerCase (userAgent androidHost)) ''linux''
   \<and> includesStr (toLowerCase (userAgent androidHost)) ''android''
   \<and> \<not> includesStr (toLowerCase (userAgent androidHost)) ''win''
   \<and> \<not> includesStr (toLowerCase (userAgent androidHost)) ''mac''
   \<and> getOSInfo androidHost = (Linux, ''Linux'')
   \<and> includesStr (toLowerCase (userAgent dalvikHost)) ''android''
   \<and> fst (getOSInfo dalvikHost) = Android"
proof -
  have a: "includesStr (toLowerCase (userAgent androidHost)) ''linux''"
    "includesStr (toLowerCase (userAgent androidHost)) ''android''"
    "\<not> includesStr (toLowerCase (userAgent androidHost)) ''win''"
    "\<not> includesStr (toLowerCase (userAgent androidHost)) ''mac''"
    unfolding android_lower by simp_all
  have d: "includesStr (toLowerCase (userAgent dalvikHost)) ''android''"
    "\<not> includesStr (toLowerCase (userAgent dalvikHost)) ''win''"
    "\<not> includesStr (toLowerCase (userAgent dalvikHost)) ''mac''"
    "\<not> includesStr (toLowerCase (userAgent dalvikHost)) ''linux''"
    "\<not> includesStr (toLowerCase (userAgent dalvikHost)) ''x11''"
    unfolding dalvik_lower by simp_all
  from a d getOSInfo_linux_before_android [of androidHost]
       getOSInfo_linux_before_android [of dalvikHost]
  show ?thesis by blast
qed

section \<open>The tally, in terms of the candidate list\<close>

lemma tally_snoc: "tally (rs @ [r]) = tallyStep r (tally rs)"
  by (simp add: tally_def)

lemma tally_Nil: "tally [] = emptyTally"
  by (simp add: tally_def)

lemma counts_tally: "orZero (map_of (browserCounts (tally rs)) b) = countOf b rs"
proof (induction rs arbitrary: b rule: rev_induct)
  case Nil
  then show ?case by (simp add: tally_Nil emptyTally_def countOf_def candidatesOf_def)
next
  case (snoc r rs)
  then show ?case
    by (simp add: tally_snoc tallyStep_def Let_def update_conv' countOf_def candidatesOf_def)
qed

lemma confs_tally: "orZero (map_of (browserConfidences (tally rs)) b) = maxConfidenceOf b rs"
proof (induction rs arbitrary: b rule: rev_induct)
  case Nil
  then show ?case by (simp add: tally_Nil emptyTally_def maxConfidenceOf_def candidatesOf_def)
next
  case (snoc r rs)
  then show ?case
    by (simp add: tally_snoc tallyStep_def Let_def update_conv' maxConfidenceOf_def
        candidatesOf_def max.commute)
qed

lemma keys_tally: "map fst (browserCounts (tally rs)) = labelOrder rs"
proof (induction rs rule: rev_induct)
  case Nil
  then show ?case by (simp add: tally_Nil emptyTally_def labelOrder_def)
next
  case (snoc r rs)
  then show ?case
    by (simp add: tally_snoc tallyStep_def Let_def update_keys labelOrder_def)
qed

lemma results_tally:
  "map_of (browserResults (tally rs)) b =
     (if candidatesOf b rs = [] then None else Some (last (candidatesOf b rs)))"
proof (induction rs rule: rev_induct)
  case Nil
  then show ?case by (simp add: tally_Nil emptyTally_def candidatesOf_def)
next
  case (snoc r rs)
  then show ?case
    by (simp add: tally_snoc tallyStep_def Let_def update_conv' candidatesOf_def)
qed

lemma set_labelOrder: "set (labelOrder rs) = browser ` set rs"
proof (induction rs rule: rev_induct)
  case Nil
  then show ?case by (simp add: labelOrder_def)
next
  case (snoc r rs)
  then show ?case by (auto simp: labelOrder_def)
qed

lemma distinct_labelOrder: "distinct (labelOrder rs)"
proof (induction rs rule: rev_induct)
  case Nil
  then show ?case by (simp add: labelOrder_def)
next
  case (snoc r rs)
  then show ?case by (auto simp: labelOrder_def)
qed

lemma bestStep_eq:
  "bestStep (tally rs) b best =
     (if b = Edge \<and> countOf b rs \<ge> 2 then (b, scoreOf b rs)
      else if b = Chrome \<and> maxConfidenceOf b rs \<ge> 0.9 then (b, scoreOf b rs)
      else if scoreOf b rs > snd best then (b, scoreOf b rs)
      else best)"
  unfolding bestStep_def Let_def counts_tally confs_tally scoreOf_def by (rule refl)

lemma selectBestResult_eq:
  "selectBestResult rs =
     (let bestBrowser = fst (fold (bestStep (tally rs)) (labelOrder rs) (Unknown, 0))
      in \<lparr>browser = bestBrowser,
          confidence = (if candidatesOf bestBrowser rs = [] then 0
                        else confidence (last (candidatesOf bestBrowser rs))),
          detectionMethods = map method (candidatesOf bestBrowser rs)\<rparr>)"
  by (simp add: selectBestResult_def Let_def keys_tally results_tally candidatesOf_def)

section \<open>The pass over the labels\<close>

lemma fold_bestStep_not_Edge:
  "b \<noteq> Edge \<Longrightarrow> Edge \<notin> set ks \<Longrightarrow> fst (fold (bestStep (tally rs)) ks (b, s)) \<noteq> Edge"
proof (induction ks arbitrary: b s)
  case Nil
  then show ?case by simp
next
  case (Cons k ks)
  then have k: "k \<noteq> Edge" and ks: "Edge \<notin> set ks" by auto
  obtain b' s' where step: "bestStep (tally rs) k (b, s) = (b', s')"
    by (cases "bestStep (tally rs) k (b, s)")
  have "b' \<noteq> Edge"
    using step k Cons.prems(1) by (auto simp: bestStep_eq split: if_splits)
  with Cons.IH [OF _ ks, of b' s'] step show ?case by simp
qed

lemma fold_bestStep_after_Edge:
  "Edge \<notin> set ks \<Longrightarrow>
   (fst (fold (bestStep (tally rs)) ks (Edge, scoreOf Edge rs)) = Edge)
     = (\<not> list_ex (outranksEdge rs) ks)"
proof (induction ks)
  case Nil
  then show ?case by simp
next
  case (Cons k ks)
  then have k: "k \<noteq> Edge" and ks: "Edge \<notin> set ks" by auto
  show ?case
  proof (cases "outranksEdge rs k")
    case True
    with k have "bestStep (tally rs) k (Edge, scoreOf Edge rs) = (k, scoreOf k rs)"
      by (auto simp: bestStep_eq outranksEdge_def)
    with fold_bestStep_not_Edge [OF k ks, of rs "scoreOf k rs"] True show ?thesis
      by simp
  next
    case False
    with k have "bestStep (tally rs) k (Edge, scoreOf Edge rs) = (Edge, scoreOf Edge rs)"
      by (auto simp: bestStep_eq outranksEdge_def)
    with Cons.IH [OF ks] False show ?thesis by simp
  qed
qed

lemma split_at_Edge:
  assumes "Edge \<in> set ks"
  shows "ks = takeWhile (\<lambda>l. l \<noteq> Edge) ks @ Edge # tl (dropWhile (\<lambda>l. l \<noteq> Edge) ks)"
proof -
  from assms have "dropWhile (\<lambda>l. l \<noteq> Edge) ks \<noteq> []"
    by (simp add: dropWhile_eq_Nil_conv)
  moreover from this have "hd (dropWhile (\<lambda>l. l \<noteq> Edge) ks) = Edge"
    using hd_dropWhile [of "\<lambda>l. l \<noteq> Edge" ks] by simp
  ultimately have "dropWhile (\<lambda>l. l \<noteq> Edge) ks = Edge # tl (dropWhile (\<lambda>l. l \<noteq> Edge) ks)"
    by (cases "dropWhile (\<lambda>l. l \<noteq> Edge) ks") simp_all
  then show ?thesis
    using takeWhile_dropWhile_id [of "\<lambda>l. l \<noteq> Edge" ks] by simp
qed

text \<open>
  C3, as the code has it. On the candidate list that the four extractors produce on a
  host, when at least two candidates carry the label Edge, \<open>selectBestResult\<close>
  returns Edge if and only if no label whose first candidate comes after the first Edge
  candidate is Chrome at a confidence of 0.9 or more or has a score above the score of
  Edge.
\<close>

theorem selectBestResult_edge_priority:
  assumes "2 \<le> countOf Edge (candidates h)"
  shows "(browser (selectBestResult (candidates h)) = Edge)
           = (\<not> list_ex (outranksEdge (candidates h)) (labelsAfter Edge (candidates h)))"
proof -
  let ?rs = "candidates h"
  let ?ks = "labelOrder ?rs"
  let ?pre = "takeWhile (\<lambda>l. l \<noteq> Edge) ?ks"
  let ?post = "tl (dropWhile (\<lambda>l. l \<noteq> Edge) ?ks)"
  from assms have "candidatesOf Edge ?rs \<noteq> []"
    by (auto simp: countOf_def)
  then have "Edge \<in> browser ` set ?rs"
    by (force simp: candidatesOf_def filter_empty_conv)
  then have mem: "Edge \<in> set ?ks"
    by (simp add: set_labelOrder)
  have split: "?ks = ?pre @ Edge # ?post"
    by (rule split_at_Edge [OF mem])
  have "distinct (?pre @ Edge # ?post)"
    using distinct_labelOrder [of ?rs] split by simp
  then have post: "Edge \<notin> set ?post"
    by simp
  have step: "bestStep (tally ?rs) Edge best = (Edge, scoreOf Edge ?rs)" for best
    using assms by (simp add: bestStep_eq)
  have "fold (bestStep (tally ?rs)) ?ks (Unknown, 0)
      = fold (bestStep (tally ?rs)) (?pre @ Edge # ?post) (Unknown, 0)"
    using split by simp
  also have "\<dots> = fold (bestStep (tally ?rs)) ?post (Edge, scoreOf Edge ?rs)"
    by (simp add: step)
  finally have "fst (fold (bestStep (tally ?rs)) ?ks (Unknown, 0))
      = fst (fold (bestStep (tally ?rs)) ?post (Edge, scoreOf Edge ?rs))"
    by simp
  then show ?thesis
    using fold_bestStep_after_Edge [OF post, of ?rs]
    by (simp add: selectBestResult_eq Let_def labelsAfter_def)
qed

lemmas list_defs =
  countOf_def candidatesOf_def maxConfidenceOf_def scoreOf_def labelOrder_def labelsAfter_def
  outranksEdge_def

lemma cross_lower:
  "toLowerCase (userAgent crossHost) =
     ''mozilla/5.0 (linux; android 13) applewebkit/537.36 (khtml, like gecko) chrome/120.0.0.0 crios/120.0 mobile safari/537.36''"
  by (simp add: host_defs toLowerCase_def lowerChar_Char)

lemma cross_vendor: "vendor crossHost = ''''" "toLowerCase (vendor crossHost) = ''''"
  by (simp_all add: host_defs toLowerCase_def)

lemma cross_extractors:
  "apiDetection crossHost = \<lparr>browser = Edge, confidence = 0.95, method = ApiDetection\<rparr>"
  "vendorDetection crossHost = \<lparr>browser = Edge, confidence = 0.7, method = VendorDetection\<rparr>"
  "userAgentDetection crossHost
     = \<lparr>browser = Chrome, confidence = 0.95, method = UserAgentDetection\<rparr>"
  "cssDetection crossHost = \<lparr>browser = Edge, confidence = 0.6, method = CssDetection\<rparr>"
proof -
  show "apiDetection crossHost = \<lparr>browser = Edge, confidence = 0.95, method = ApiDetection\<rparr>"
    by (simp add: extractor_defs host_defs)
  show "vendorDetection crossHost = \<lparr>browser = Edge, confidence = 0.7, method = VendorDetection\<rparr>"
    unfolding vendorDetection_def cross_lower cross_vendor
    by (simp add: unknownResult_def found_def Let_def toLowerCase_def)
  show "userAgentDetection crossHost
     = \<lparr>browser = Chrome, confidence = 0.95, method = UserAgentDetection\<rparr>"
    unfolding userAgentDetection_def cross_lower cross_vendor
    by (simp add: unknownResult_def found_def Let_def toLowerCase_def)
  show "cssDetection crossHost = \<lparr>browser = Edge, confidence = 0.6, method = CssDetection\<rparr>"
    unfolding cssDetection_def cross_lower cross_vendor
    by (simp add: unknownResult_def found_def host_defs hasChromeWebstore_def
        hasSafariPushNotification_def Let_def toLowerCase_def)
qed

text \<open>The candidate list of the counterexample to C3 is the one the extractors give on \<open>crossHost\<close>.\<close>

lemma cross_candidates: "candidates crossHost = crossCandidates"
  by (simp add: candidates_def detectionMethods_list_def tryMethod_def cross_extractors
      crossCandidates_def)

lemma mild_lower:
  "toLowerCase (userAgent mildHost) =
     ''mozilla/5.0 (linux; android 13) applewebkit/537.36 (khtml, like gecko) chrome/120.0.0.0 mobile safari/537.36''"
  by (simp add: mildHost_def toLowerCase_def lowerChar_Char)

lemma mild_vendor: "vendor mildHost = ''''" "toLowerCase (vendor mildHost) = ''''"
  by (simp_all add: mildHost_def host_defs toLowerCase_def)

lemma mild_candidates: "candidates mildHost = mildCandidates"
proof -
  have "apiDetection mildHost = \<lparr>browser = Edge, confidence = 0.95, method = ApiDetection\<rparr>"
    by (simp add: extractor_defs mildHost_def host_defs)
  moreover have
    "vendorDetection mildHost = \<lparr>browser = Edge, confidence = 0.7, method = VendorDetection\<rparr>"
    unfolding vendorDetection_def mild_lower mild_vendor
    by (simp add: unknownResult_def found_def Let_def toLowerCase_def)
  moreover have
    "userAgentDetection mildHost
       = \<lparr>browser = Chrome, confidence = 0.8, method = UserAgentDetection\<rparr>"
    unfolding userAgentDetection_def mild_lower mild_vendor
    by (simp add: unknownResult_def found_def Let_def toLowerCase_def)
  moreover have
    "cssDetection mildHost = \<lparr>browser = Edge, confidence = 0.6, method = CssDetection\<rparr>"
    unfolding cssDetection_def mild_lower mild_vendor
    by (simp add: unknownResult_def found_def mildHost_def host_defs hasChromeWebstore_def
        hasSafariPushNotification_def Let_def toLowerCase_def)
  ultimately show ?thesis
    by (simp add: candidates_def detectionMethods_list_def tryMethod_def mildCandidates_def)
qed

text \<open>
  C3 as stated fails on a list with three Edge candidates and, after the first of them,
  a Chrome candidate at confidence 0.95: the pass reaches Chrome after Edge and the
  Chrome rule replaces the running best.
\<close>

theorem selectBestResult_edge_priority_counterexample:
  "candidates crossHost = crossCandidates
   \<and> 2 \<le> countOf Edge crossCandidates
   \<and> browser (selectBestResult crossCandidates) = Chrome"
  by (simp add: cross_candidates)
     (simp add: selectBestResult_eq bestStep_eq list_defs crossCandidates_def)

theorem selectBestResult_edge_priority_witness:
  "2 \<le> countOf Edge (candidates mildHost)
   \<and> labelsAfter Edge (candidates mildHost) = [Chrome]
   \<and> scoreOf Chrome (candidates mildHost) < scoreOf Edge (candidates mildHost)
   \<and> browser (selectBestResult (candidates mildHost)) = Edge"
proof -
  have c: "2 \<le> countOf Edge (candidates mildHost)"
    by (simp add: mild_candidates) (simp add: list_defs mildCandidates_def)
  have l: "labelsAfter Edge (candidates mildHost) = [Chrome]"
    by (simp add: mild_candidates) (simp add: list_defs mildCandidates_def)
  have s: "scoreOf Chrome (candidates mildHost) < scoreOf Edge (candidates mildHost)"
    by (simp add: mild_candidates) (simp add: list_defs mildCandidates_def)
  have o: "\<not> outranksEdge (candidates mildHost) Chrome"
    by (simp add: mild_candidates) (simp add: list_defs mildCandidates_def)
  from selectBestResult_edge_priority [OF c] l o c s show ?thesis by simp
qed

section \<open>The confidence that fusion returns\<close>

lemma selectBestResult_confidence_last:
  "confidence (selectBestResult rs) =
     (if candidatesOf (browser (selectBestResult rs)) rs = [] then 0
      else confidence (last (candidatesOf (browser (selectBestResult rs)) rs)))"
  by (simp add: selectBestResult_eq Let_def)

lemma detect_confidence:
  assumes "fold (tryMethod invoke) detectionMethods_list [] = rs" and "rs \<noteq> []"
  shows "confidence (detect invoke h) = confidence (selectBestResult rs)"
  using assms by (simp add: detect_def Let_def assignPartial_def)

lemma edge_vendor: "vendor edgeHost = ''''" "toLowerCase (vendor edgeHost) = ''''"
  by (simp_all add: host_defs toLowerCase_def)

lemma edge_candidates:
  "fold (tryMethod (invokeMethod edgeHost)) detectionMethods_list [] = edgeCandidates"
proof -
  have "apiDetection edgeHost = \<lparr>browser = Unknown, confidence = 0, method = ApiDetection\<rparr>"
    by (simp add: extractor_defs host_defs)
  moreover have
    "vendorDetection edgeHost = \<lparr>browser = Edge, confidence = 0.9, method = VendorDetection\<rparr>"
    unfolding vendorDetection_def edge_lower edge_vendor
    by (simp add: unknownResult_def found_def Let_def toLowerCase_def)
  moreover have
    "userAgentDetection edgeHost
       = \<lparr>browser = Edge, confidence = 0.85, method = UserAgentDetection\<rparr>"
    unfolding userAgentDetection_def edge_lower edge_vendor
    by (simp add: unknownResult_def found_def Let_def toLowerCase_def)
  moreover have
    "cssDetection edgeHost = \<lparr>browser = Edge, confidence = 0.7, method = CssDetection\<rparr>"
    unfolding cssDetection_def edge_lower edge_vendor
    by (simp add: unknownResult_def found_def host_defs hasChromeWebstore_def
        hasSafariPushNotification_def Let_def toLowerCase_def)
  ultimately show ?thesis
    by (simp add: detectionMethods_list_def tryMethod_def edgeCandidates_def)
qed

text \<open>
  C2. The claim has the returned confidence equal to the greatest confidence among the
  candidates of the winning label. On the candidates of Edge on Windows (vendor 0.9,
  user agent 0.85, feature probe 0.7) the winning label is Edge and its greatest
  confidence is 0.9, but \<open>selectBestResult\<close>, and with it \<open>detectBrowser\<close>, returns
  0.7: the confidence of the last Edge candidate.
\<close>

theorem selectBestResult_confidence_not_max:
  "fold (tryMethod (invokeMethod edgeHost)) detectionMethods_list [] = edgeCandidates
   \<and> browser (selectBestResult edgeCandidates) = Edge
   \<and> maxConfidenceOf Edge edgeCandidates = 0.9
   \<and> confidence (selectBestResult edgeCandidates) = 0.7
   \<and> confidence (fst (detectBrowser edgeHost newEngine)) = 0.7"
proof -
  have b: "browser (selectBestResult edgeCandidates) = Edge"
    by (simp add: selectBestResult_eq bestStep_eq list_defs edgeCandidates_def)
  have m: "maxConfidenceOf Edge edgeCandidates = 0.9"
    by (simp add: list_defs edgeCandidates_def)
  have c: "confidence (selectBestResult edgeCandidates) = 0.7"
    by (simp add: selectBestResult_confidence_last b) (simp add: list_defs edgeCandidates_def)
  have "edgeCandidates \<noteq> []"
    by (simp add: edgeCandidates_def)
  then have "confidence (fst (detectBrowser edgeHost newEngine)) = 0.7"
    by (simp add: fresh_result detect_confidence [OF edge_candidates] c)
  with edge_candidates b m c show ?thesis by simp
qed

section \<open>No candidate\<close>

lemma tryMethod_noCandidate: "noCandidate (invoke m) \<Longrightarrow> tryMethod invoke m acc = acc"
  by (cases "invoke m") (simp_all add: tryMethod_def)

lemma detect_no_candidate:
  assumes "\<forall>m. noCandidate (invoke m)"
  shows "detect invoke h =
     (initialResult h)\<lparr>isMobile := detectMobile h, isTablet := detectTablet h,
        isDesktop := (\<not> detectMobile h \<and> \<not> detectTablet h),
        os := fst (getOSInfo h), osVersion := snd (getOSInfo h)\<rparr>"
proof -
  have "fold (tryMethod invoke) detectionMethods_list [] = []"
    using assms by (simp add: detectionMethods_list_def tryMethod_noCandidate)
  then show ?thesis
    by (simp add: detect_def Let_def initialResult_def)
qed

text \<open>
  C6, as the code has it. On a cache miss, in a page (a runtime that provides
  \<open>window\<close>, \<open>navigator\<close> and \<open>document\<close> with the declared types), when every
  extractor call raises or returns the label \<open>Unknown\<close>, \<open>detectBrowser\<close> raises
  no exception and returns a complete result: the initial record (label \<open>Unknown\<close>,
  confidence 0, no contributing method, version and engine \<open>Unknown\<close>) with the
  device flags and the operating system filled in.
\<close>

theorem detectBrowser_no_candidate:
  assumes "map_of (cache s) cacheKey = None"
      and "\<forall>m. noCandidate (invoke m)"
  shows "detectBrowserOn invoke (Page h) s = Inr (detectBrowserWith invoke h s)
         \<and> fst (detectBrowserWith invoke h s) =
           (initialResult h)\<lparr>isMobile := detectMobile h, isTablet := detectTablet h,
              isDesktop := (\<not> detectMobile h \<and> \<not> detectTablet h),
              os := fst (getOSInfo h), osVersion := snd (getOSInfo h)\<rparr>
         \<and> browser (fst (detectBrowserWith invoke h s)) = Unknown
         \<and> confidence (fst (detectBrowserWith invoke h s)) = 0
         \<and> detectionMethods (fst (detectBrowserWith invoke h s)) = []
         \<and> browserVersion (fst (detectBrowserWith invoke h s)) = ''Unknown''
         \<and> engine (fst (detectBrowserWith invoke h s)) = UnknownEngine"
proof -
  have "fst (detectBrowserWith invoke h s) = detect invoke h"
    using assms(1) by (simp add: detectBrowserWith_def Let_def)
  then show ?thesis
    by (simp add: detect_no_candidate [OF assms(2)] initialResult_def detectBrowserOn_def)
qed

lemma bare_extractors:
  "browser (vendorDetection bareHost) = Unknown"
  "browser (userAgentDetection bareHost) = Unknown"
  "browser (cssDetection bareHost) = Unknown"
  "browser (apiDetection bareHost) = Unknown"
  by (simp_all add: extractor_defs host_defs toLowerCase_def)

lemma faultyInvoke_noCandidate: "noCandidate (faultyInvoke m)"
  by (cases m) (simp_all add: faultyInvoke_def bare_extractors)

lemma invokeMethod_bare_noCandidate: "noCandidate (invokeMethod bareHost m)"
  by (cases m) (simp_all add: bare_extractors)

lemma edge_detected: "browser (fst (detectBrowser edgeHost newEngine)) = Edge"
proof -
  have "edgeCandidates \<noteq> []"
    by (simp add: edgeCandidates_def)
  moreover have "browser (selectBestResult edgeCandidates) = Edge"
    by (simp add: selectBestResult_eq bestStep_eq list_defs edgeCandidates_def)
  ultimately show ?thesis
    by (simp add: fresh_result detect_browser [OF edge_candidates])
qed

text \<open>
  C6 as stated fails in two ways. On a cache hit \<open>detectBrowser\<close> returns the cached
  result: after a call on the Edge host, a call on the bare host, where every extractor
  returns \<open>Unknown\<close>, returns the label Edge. And in a runtime without a window,
  where the extractor calls raise or return \<open>Unknown\<close>, \<open>detectBrowser\<close> raises on
  a cache miss.
\<close>

theorem detectBrowser_no_candidate_counterexample:
  "noCandidate (invokeMethod bareHost ApiDetection)
   \<and> noCandidate (invokeMethod bareHost VendorDetection)
   \<and> noCandidate (invokeMethod bareHost UserAgentDetection)
   \<and> noCandidate (invokeMethod bareHost CssDetection)
   \<and> browser (fst (detectBrowser bareHost (snd (detectBrowser edgeHost newEngine)))) = Edge
   \<and> noCandidate (noWindowInvoke ApiDetection)
   \<and> noCandidate (noWindowInvoke VendorDetection)
   \<and> noCandidate (noWindowInvoke UserAgentDetection)
   \<and> noCandidate (noWindowInvoke CssDetection)
   \<and> detectBrowserOn noWindowInvoke NoWindow newEngine = Inl Thrown"
proof -
  have "detectBrowser bareHost (snd (detectBrowser edgeHost newEngine))
      = (fst (detectBrowser edgeHost newEngine), snd (detectBrowser edgeHost newEngine))"
    by (rule detectBrowser_hit [OF detectBrowser_stores])
  then have "browser (fst (detectBrowser bareHost (snd (detectBrowser edgeHost newEngine)))) = Edge"
    by (simp add: edge_detected)
  moreover have "detectBrowserOn noWindowInvoke NoWindow newEngine = Inl Thrown"
    by (simp add: detectBrowserOn_def newEngine_def)
  ultimately show ?thesis
    by (simp add: bare_extractors unknownResult_def)
qed

theorem detectBrowser_no_candidate_witness:
  "map_of (cache newEngine) cacheKey = None
   \<and> faultyInvoke ApiDetection = Inl Thrown
   \<and> detectBrowserOn faultyInvoke (Page bareHost) newEngine
       = Inr (detectBrowserWith faultyInvoke bareHost newEngine)
   \<and> browser (fst (detectBrowserWith faultyInvoke bareHost newEngine)) = Unknown
   \<and> confidence (fst (detectBrowserWith faultyInvoke bareHost newEngine)) = 0
   \<and> detectionMethods (fst (detectBrowserWith faultyInvoke bareHost newEngine)) = []
   \<and> isDesktop (fst (detectBrowserWith faultyInvoke bareHost newEngine))
   \<and> browser (fst (detectBrowser bareHost newEngine)) = Unknown
   \<and> confidence (fst (detectBrowser bareHost newEngine)) = 0
   \<and> detectionMethods (fst (detectBrowser bareHost newEngine)) = []"
proof -
  have c: "map_of (cache newEngine) cacheKey = None"
    by (simp add: newEngine_def)
  have f: "\<forall>m. noCandidate (faultyInvoke m)"
    by (simp add: faultyInvoke_noCandidate)
  have i: "\<forall>m. noCandidate (invokeMethod bareHost m)"
    by (simp add: invokeMethod_bare_noCandidate)
  have d: "\<not> detectMobile bareHost" "\<not> detectTablet bareHost"
    by (simp_all add: detectMobile_def detectTablet_def hasTouch_def host_defs toLowerCase_def
        mobileKeywords_def tabletKeywords_def)
  have t: "faultyInvoke ApiDetection = Inl Thrown"
    by (simp add: faultyInvoke_def)
  from detectBrowser_no_candidate [OF c f, of bareHost]
       detectBrowser_no_candidate [OF c i, of bareHost] c d t
  show ?thesis by (simp add: detectBrowser_def initialResult_def)
qed

end
